theory Spec2Isabelle
  imports Complex_Main "HOL-Library.Multiset"
begin

section \<open>Python values and failures\<close>

text \<open>
  The module \<open>data_utils.py\<close> is a linear pipeline over in-memory arrays. Every function
  of it is embedded as a HOL function that returns \<open>error + 'a\<close>: \<open>Inl\<close> carries the
  exception the Python raises, \<open>Inr\<close> the value it returns. Python integers are
  \<open>int\<close>; array lengths and positions that cannot be negative are \<open>nat\<close>.

  Array elements are kept abstract (a type variable): \<open>torch.tensor(..., dtype=...)\<close>
  and \<open>.numpy()\<close> convert element by element and never move, drop or add an element,
  and the embedding does not model the floating point representation of a value.
\<close>

datatype error = OSError | ParserError | IndexError | ValueError | RuntimeError

text \<open>\<open>xs[i]\<close> on a list or a one-dimensional array: a negative index counts from the
  end, an index out of range raises \<open>IndexError\<close>.\<close>

definition py_index :: "'a list \<Rightarrow> int \<Rightarrow> error + 'a" where
  "py_index xs i =
     (if 0 \<le> i \<and> i < int (length xs) then Inr (xs ! nat i)
      else if i < 0 \<and> - int (length xs) \<le> i then Inr (xs ! nat (int (length xs) + i))
      else Inl IndexError)"

text \<open>\<open>xs[a:b]\<close>: both bounds are taken from the end when negative and are clamped to
  the length; the slice is empty when the bounds cross. It never raises.\<close>

definition py_slice :: "'a list \<Rightarrow> int \<Rightarrow> int \<Rightarrow> 'a list" where
  "py_slice xs a b =
     (let n = int (length xs);
          lo = (if a < 0 then max 0 (n + a) else min a n);
          hi = (if b < 0 then max 0 (n + b) else min b n)
      in take (nat (hi - lo)) (drop (nat lo) xs))"

text \<open>\<open>range(start, stop, step)\<close> as the list of its elements: a zero step raises
  \<open>ValueError\<close>, and the number of elements is the one CPython computes.\<close>

definition py_range :: "int \<Rightarrow> int \<Rightarrow> int \<Rightarrow> error + int list" where
  "py_range start stop step =
     (if step = 0 then Inl ValueError
      else if 0 < step then
        Inr (map (\<lambda>k. start + int k * step) [0..<nat ((stop - start + step - 1) div step)])
      else
        Inr (map (\<lambda>k. start + int k * step) [0..<nat ((start - stop - step - 1) div (- step))]))"

text \<open>\<open>s.endswith(suffix)\<close>.\<close>

definition str_endswith :: "string \<Rightarrow> string \<Rightarrow> bool" where
  "str_endswith s suffix =
     (length suffix \<le> length s \<and> drop (length s - length suffix) s = suffix)"

section \<open>The class names\<close>

text \<open>The dictionary of \<open>get_class_name\<close>, in the order it is written.\<close>

definition class_names :: "(int \<times> string) list" where
  "class_names =
     [(0, ''Non-request''), (1, ''Both hands''), (2, ''Left hand''), (3, ''Right hand'')]"

text \<open>\<open>class_names.get(feature_value, "Unknown")\<close>: a lookup with a default.\<close>

definition get_class_name :: "int \<Rightarrow> string" where
  "get_class_name feature_value =
     (case map_of class_names feature_value of Some name \<Rightarrow> name | None \<Rightarrow> ''Unknown'')"

section \<open>Sliding windows\<close>

text \<open>The body of the loop of \<open>prepare_data\<close>, run over the start positions the range
  gives: the window is sliced (a slice never raises), the label of its last row is read
  (an index out of range raises), and both are appended.\<close>

fun window_loop ::
  "'r list \<Rightarrow> 'l list \<Rightarrow> int \<Rightarrow> int list \<Rightarrow> 'r list list \<Rightarrow> 'l list \<Rightarrow>
   error + ('r list list \<times> 'l list)" where
  "window_loop features labels window_size [] X y = Inr (X, y)"
| "window_loop features labels window_size (i # rest) X y =
     (case py_index labels (i + window_size - 1) of
        Inl e \<Rightarrow> Inl e
      | Inr window_label \<Rightarrow>
          window_loop features labels window_size rest
            (X @ [py_slice features i (i + window_size)]) (y @ [window_label]))"

text \<open>\<open>torch.tensor(X)\<close> on a list of windows: windows of different lengths cannot form
  a tensor and raise \<open>ValueError\<close>.\<close>

definition torch_tensor :: "'r list list \<Rightarrow> error + 'r list list" where
  "torch_tensor X =
     (case X of
        [] \<Rightarrow> Inr []
      | first # others \<Rightarrow>
          if list_all (\<lambda>other. length other = length first) others then Inr X
          else Inl ValueError)"

definition prepare_data ::
  "'r list \<Rightarrow> 'l list \<Rightarrow> int \<Rightarrow> int \<Rightarrow> error + ('r list list \<times> 'l list)" where
  "prepare_data features labels window_size stride =
     (case py_range 0 (int (length features) - window_size + 1) stride of
        Inl e \<Rightarrow> Inl e
      | Inr starts \<Rightarrow>
          (case window_loop features labels window_size starts [] [] of
             Inl e \<Rightarrow> Inl e
           | Inr (X, y) \<Rightarrow>
               (case torch_tensor X of Inl e \<Rightarrow> Inl e | Inr X_tensor \<Rightarrow> Inr (X_tensor, y))))"

section \<open>Loading the files\<close>

text \<open>
  A parsed CSV file (a pandas DataFrame) and a two-dimensional array are both a table:
  the number of columns and the rows. The number of columns is kept apart from the rows,
  because a table without rows still has a shape, which \<open>np.vstack\<close> compares.
\<close>

record 'a table =
  width :: nat
  rows :: "'a list list"


text \<open>\<open>data.iloc[:, a:b].values\<close>: the columns of a slice, every row kept.\<close>

definition iloc_columns :: "'a table \<Rightarrow> int \<Rightarrow> int \<Rightarrow> 'a table" where
  "iloc_columns data a b =
     \<lparr>width = length (py_slice [0..<width data] a b),
      rows = map (\<lambda>r. py_slice r a b) (rows data)\<rparr>"

text \<open>\<open>data.iloc[:, i].values\<close>: one column; a position that is no column raises
  \<open>IndexError\<close>.\<close>

definition iloc_column :: "'a table \<Rightarrow> int \<Rightarrow> error + 'a list" where
  "iloc_column data i =
     (case py_index [0..<width data] i of
        Inl e \<Rightarrow> Inl e
      | Inr j \<Rightarrow> Inr (map (\<lambda>r. r ! j) (rows data)))"

text \<open>
  What the program sees of the outside world: \<open>os.listdir\<close> of a path (the names in
  listing order, or the error it raises) and \<open>pd.read_csv\<close> of a path (the parsed
  file, or the error it raises).
\<close>

record 'a filesystem =
  listdir :: "string \<Rightarrow> error + string list"
  read_csv :: "string \<Rightarrow> error + 'a table"

definition path_sep :: char where
  "path_sep = CHR 0x5C"

definition BASE_DATA_PATH :: string where
  "BASE_DATA_PATH =
     ''C:'' @ path_sep # ''model101'' @ path_sep # ''.venv'' @ path_sep # ''Scripts'' @
     path_sep # ''separated_data''"

text \<open>\<open>os.path.join\<close> of the directory and a name of its listing.\<close>

definition os_path_join :: "string \<Rightarrow> string \<Rightarrow> string" where
  "os_path_join directory filename = directory @ path_sep # filename"

fun load_loop ::
  "'a filesystem \<Rightarrow> string list \<Rightarrow> 'a table list \<Rightarrow> 'a list list \<Rightarrow>
   error + ('a table list \<times> 'a list list)" where
  "load_loop fs [] all_features all_labels = Inr (all_features, all_labels)"
| "load_loop fs (filename # rest) all_features all_labels =
     (if str_endswith filename ''.csv'' then
        (case read_csv fs (os_path_join BASE_DATA_PATH filename) of
           Inl e \<Rightarrow> Inl e
         | Inr data \<Rightarrow>
             (case iloc_column data (- 2) of
                Inl e \<Rightarrow> Inl e
              | Inr labels \<Rightarrow>
                  load_loop fs rest (all_features @ [iloc_columns data 1 (- 2)])
                    (all_labels @ [labels])))
      else load_loop fs rest all_features all_labels)"

text \<open>\<open>np.vstack\<close>: no array, or arrays of different widths, raise \<open>ValueError\<close>.\<close>

definition np_vstack :: "'a table list \<Rightarrow> error + 'a table" where
  "np_vstack arrays =
     (case arrays of
        [] \<Rightarrow> Inl ValueError
      | first # others \<Rightarrow>
          if list_all (\<lambda>other. width other = width first) others
          then Inr \<lparr>width = width first, rows = concat (map rows arrays)\<rparr>
          else Inl ValueError)"

text \<open>\<open>np.concatenate\<close> of one-dimensional arrays: no array raises \<open>ValueError\<close>.\<close>

definition np_concatenate :: "'a list list \<Rightarrow> error + 'a list" where
  "np_concatenate arrays =
     (case arrays of [] \<Rightarrow> Inl ValueError | first # others \<Rightarrow> Inr (concat arrays))"

definition load_data_from_files :: "'a filesystem \<Rightarrow> error + ('a table \<times> 'a list)" where
  "load_data_from_files fs =
     (case listdir fs BASE_DATA_PATH of
        Inl e \<Rightarrow> Inl e
      | Inr filenames \<Rightarrow>
          (case load_loop fs filenames [] [] of
             Inl e \<Rightarrow> Inl e
           | Inr (all_features, all_labels) \<Rightarrow>
               (case np_vstack all_features of
                  Inl e \<Rightarrow> Inl e
                | Inr features \<Rightarrow>
                    (case np_concatenate all_labels of
                       Inl e \<Rightarrow> Inl e
                     | Inr labels \<Rightarrow> Inr (features, labels)))))"

section \<open>Balancing the classes\<close>

text \<open>\<open>np.unique(y, return_counts=True)\<close>: the distinct labels in ascending order, and
  how often each occurs.\<close>

definition np_unique :: "int list \<Rightarrow> int list" where
  "np_unique y = sort (remdups y)"

definition class_count :: "int list \<Rightarrow> int \<Rightarrow> nat" where
  "class_count y cls = length (filter (\<lambda>v. v = cls) y)"

text \<open>\<open>np.where(y == cls)[0]\<close>: the positions of a label, ascending.\<close>

definition np_where_eq :: "int list \<Rightarrow> int \<Rightarrow> nat list" where
  "np_where_eq y cls = filter (\<lambda>i. y ! i = cls) [0..<length y]"

text \<open>
  The global generator of \<open>np.random\<close>, with its state \<open>'g\<close> passed explicitly:
  \<open>choice g population size\<close> is \<open>np.random.choice(population, size, replace=False)\<close>
  and \<open>shuffle g xs\<close> is \<open>np.random.shuffle(xs)\<close>; each returns the state it leaves.
  \<open>sampler\<close> is what numpy documents of them: a sample without replacement takes
  \<open>size\<close> elements of the population, none more often than it occurs there, and a shuffle
  permutes.
\<close>

record 'g np_random =
  choice :: "'g \<Rightarrow> nat list \<Rightarrow> nat \<Rightarrow> nat list \<times> 'g"
  shuffle :: "'g \<Rightarrow> nat list \<Rightarrow> nat list \<times> 'g"

definition sampler :: "'g np_random \<Rightarrow> bool" where
  "sampler rnd =
     ((\<forall>g population size. size \<le> length population \<longrightarrow>
         length (fst (choice rnd g population size)) = size \<and>
         mset (fst (choice rnd g population size)) \<subseteq># mset population) \<and>
      (\<forall>g xs. mset (fst (shuffle rnd g xs)) = mset xs))"

text \<open>The under-sampling loop over the classes, with the list of kept positions and
  the generator state. A negative size makes \<open>np.random.choice\<close> raise \<open>ValueError\<close>.\<close>

fun undersample_loop ::
  "'g np_random \<Rightarrow> int list \<Rightarrow> int \<Rightarrow> int list \<Rightarrow> nat list \<Rightarrow> 'g \<Rightarrow> error + (nat list \<times> 'g)" where
  "undersample_loop rnd y_np target_size [] balanced_indices g = Inr (balanced_indices, g)"
| "undersample_loop rnd y_np target_size (cls # rest) balanced_indices g =
     (let cls_indices = np_where_eq y_np cls in
      if int (length cls_indices) > target_size then
        (if target_size < 0 then Inl ValueError
         else
           (case choice rnd g cls_indices (nat target_size) of
              (selected_indices, g') \<Rightarrow>
                undersample_loop rnd y_np target_size rest
                  (balanced_indices @ selected_indices) g'))
      else undersample_loop rnd y_np target_size rest (balanced_indices @ cls_indices) g)"

text \<open>\<open>a[indices]\<close> with a list of positions: a position past the end raises
  \<open>IndexError\<close>.\<close>

definition fancy_index :: "'x list \<Rightarrow> nat list \<Rightarrow> error + 'x list" where
  "fancy_index a indices =
     (if list_all (\<lambda>i. i < length a) indices then Inr (map (\<lambda>i. a ! i) indices)
      else Inl IndexError)"

text \<open>The default target: \<open>int(np.sort(class_counts)[-2])\<close>.\<close>

definition default_target_size :: "int list \<Rightarrow> error + int" where
  "default_target_size y =
     py_index (sort (map (\<lambda>cls. int (class_count y cls)) (np_unique y))) (- 2)"

definition balance_classes ::
  "'g np_random \<Rightarrow> 'g \<Rightarrow> 'x list \<Rightarrow> int list \<Rightarrow> int option \<Rightarrow>
   error + ('x list \<times> int list \<times> 'g)" where
  "balance_classes rnd g X y target_size =
     (case (case target_size of None \<Rightarrow> default_target_size y | Some t \<Rightarrow> Inr t) of
        Inl e \<Rightarrow> Inl e
      | Inr target \<Rightarrow>
          (case undersample_loop rnd y target (np_unique y) [] g of
             Inl e \<Rightarrow> Inl e
           | Inr (balanced_indices, g1) \<Rightarrow>
               (case shuffle rnd g1 balanced_indices of
                  (shuffled, g2) \<Rightarrow>
                    (case fancy_index X shuffled of
                       Inl e \<Rightarrow> Inl e
                     | Inr X_balanced \<Rightarrow>
                         (case fancy_index y shuffled of
                            Inl e \<Rightarrow> Inl e
                          | Inr y_balanced \<Rightarrow> Inr (X_balanced, y_balanced, g2))))))"

text \<open>
  Two notions the properties of \<open>balance_classes\<close> are stated with. \<open>second_largest\<close> is
  the second largest of a list of counts, read from the top of the descending order.
  \<open>kept y target selected cls\<close> says that \<open>selected\<close> is what the loop may keep of class
  \<open>cls\<close>: positions of that class, none twice, as many as the class has or as the target
  allows.
\<close>

definition second_largest :: "nat list \<Rightarrow> nat" where
  "second_largest counts = rev (sort counts) ! 1"

definition kept :: "int list \<Rightarrow> int \<Rightarrow> nat list \<Rightarrow> int \<Rightarrow> bool" where
  "kept y target selected cls =
     (mset selected \<subseteq># mset (np_where_eq y cls) \<and>
      length selected = min (class_count y cls) (nat target))"

section \<open>The split, the class weights and the driver\<close>

text \<open>\<open>a[y == i]\<close>: the elements of \<open>a\<close> at the positions where the label is \<open>i\<close>.\<close>

definition mask_select :: "'x list \<Rightarrow> int list \<Rightarrow> int \<Rightarrow> 'x list" where
  "mask_select a y i = map fst (filter (\<lambda>(x, c). c = i) (zip a y))"

text \<open>
  \<open>train_test_split(X, y, test_size=0.2, random_state=42)\<close> of scikit-learn. The test
  set gets \<open>ceil(0.2 * n)\<close> samples, which is \<open>(n + 4) div 5\<close>, and the training set the
  other \<open>n - n_test\<close>; an empty training set raises \<open>ValueError\<close>. The samples are
  taken along a permutation of the positions: the first \<open>n_test\<close> for the test set, the
  next \<open>n_train\<close> for the training set. The permutation a generator seeded with 42
  gives for \<open>n\<close> samples is the parameter \<open>permutation\<close>.
\<close>

definition train_test_split ::
  "(nat \<Rightarrow> nat list) \<Rightarrow> 'x list \<Rightarrow> 'y list \<Rightarrow> error + ('x list \<times> 'x list \<times> 'y list \<times> 'y list)" where
  "train_test_split permutation X y =
     (if length X \<noteq> length y then Inl ValueError
      else
        (let n_samples = length X;
             n_test = (n_samples + 4) div 5;
             n_train = n_samples - n_test
         in if n_train = 0 then Inl ValueError
            else
              (let ind_test = take n_test (permutation n_samples);
                   ind_train = take n_train (drop n_test (permutation n_samples))
               in case fancy_index X ind_train of
                    Inl e \<Rightarrow> Inl e
                  | Inr X_train \<Rightarrow>
                      (case fancy_index X ind_test of
                         Inl e \<Rightarrow> Inl e
                       | Inr X_test \<Rightarrow>
                           (case fancy_index y ind_train of
                              Inl e \<Rightarrow> Inl e
                            | Inr y_train \<Rightarrow>
                                (case fancy_index y ind_test of
                                   Inl e \<Rightarrow> Inl e
                                 | Inr y_test \<Rightarrow> Inr (X_train, X_test, y_train, y_test)))))))"

text \<open>The loop over the per-class parts, with the four lists it appends to.\<close>

fun split_loop ::
  "(nat \<Rightarrow> nat list) \<Rightarrow> ('x list \<times> int list) list \<Rightarrow>
   'x list list \<Rightarrow> 'x list list \<Rightarrow> int list list \<Rightarrow> int list list \<Rightarrow>
   error + ('x list list \<times> 'x list list \<times> int list list \<times> int list list)" where
  "split_loop permutation [] X_train X_test y_train y_test =
     Inr (X_train, X_test, y_train, y_test)"
| "split_loop permutation ((X_class, y_class) # rest) X_train X_test y_train y_test =
     (case train_test_split permutation X_class y_class of
        Inl e \<Rightarrow> Inl e
      | Inr (X_train_class, X_test_class, y_train_class, y_test_class) \<Rightarrow>
          split_loop permutation rest (X_train @ [X_train_class]) (X_test @ [X_test_class])
            (y_train @ [y_train_class]) (y_test @ [y_test_class]))"

text \<open>\<open>torch.cat\<close>: an empty list of tensors raises.\<close>

definition torch_cat :: "'x list list \<Rightarrow> error + 'x list" where
  "torch_cat tensors =
     (case tensors of [] \<Rightarrow> Inl RuntimeError | first # others \<Rightarrow> Inr (concat tensors))"

text \<open>
  Lines 147 to 170 of the driver: the balanced data are cut into one part for each
  \<open>i\<close> of \<open>range(len(unique_labels))\<close>, each part is split, and the parts are joined.
\<close>

definition stratified_split ::
  "(nat \<Rightarrow> nat list) \<Rightarrow> 'x list \<Rightarrow> int list \<Rightarrow>
   error + ('x list \<times> 'x list \<times> int list \<times> int list)" where
  "stratified_split permutation X_balanced y_balanced =
     (let unique_labels = np_unique y_balanced;
          class_ids = map int [0..<length unique_labels];
          X_classes = map (mask_select X_balanced y_balanced) class_ids;
          y_classes = map (mask_select y_balanced y_balanced) class_ids
      in case split_loop permutation (zip X_classes y_classes) [] [] [] [] of
           Inl e \<Rightarrow> Inl e
         | Inr (X_train, X_test, y_train, y_test) \<Rightarrow>
             (case torch_cat X_train of
                Inl e \<Rightarrow> Inl e
              | Inr X_train_all \<Rightarrow>
                  (case torch_cat X_test of
                     Inl e \<Rightarrow> Inl e
                   | Inr X_test_all \<Rightarrow>
                       (case torch_cat y_train of
                          Inl e \<Rightarrow> Inl e
                        | Inr y_train_all \<Rightarrow>
                            (case torch_cat y_test of
                               Inl e \<Rightarrow> Inl e
                             | Inr y_test_all \<Rightarrow>
                                 Inr (X_train_all, X_test_all, y_train_all, y_test_all))))))"

text \<open>
  \<open>compute_class_weight(class_weight='balanced', classes=..., y=...)\<close> of scikit-learn:
  a class that does not occur in \<open>y\<close> raises \<open>ValueError\<close>; the weight of a class is
  \<open>len(y) / (n_classes * count)\<close>, with \<open>n_classes\<close> the number of distinct labels of
  \<open>y\<close>. The quotient is an exact rational here; the rounding of the floating point
  division is not modelled.
\<close>

definition compute_class_weight :: "int list \<Rightarrow> int list \<Rightarrow> error + rat list" where
  "compute_class_weight classes y =
     (if list_all (\<lambda>cls. cls \<in> set (np_unique y)) classes
      then Inr (map (\<lambda>cls. of_nat (length y) /
                             (of_nat (length (np_unique y)) * of_nat (class_count y cls)))
                  classes)
      else Inl ValueError)"

text \<open>
  Lines 131 to 144 of the driver: load, cut into windows of 20 rows with stride 1 (the
  defaults of \<open>prepare_data\<close>), and balance with the default target. \<open>as_long\<close> reads a
  label cell as the integer the \<open>torch.long\<close> tensor of labels holds.
\<close>

definition balanced_dataset ::
  "'a filesystem \<Rightarrow> ('a \<Rightarrow> int) \<Rightarrow> 'g np_random \<Rightarrow> 'g \<Rightarrow>
   error + ('a list list list \<times> int list \<times> 'g)" where
  "balanced_dataset fs as_long rnd g =
     (case load_data_from_files fs of
        Inl e \<Rightarrow> Inl e
      | Inr (features, labels) \<Rightarrow>
          (case prepare_data (rows features) labels 20 1 of
             Inl e \<Rightarrow> Inl e
           | Inr (X, y) \<Rightarrow> balance_classes rnd g X (map as_long y) None))"

definition prepare_train_test_data ::
  "'a filesystem \<Rightarrow> ('a \<Rightarrow> int) \<Rightarrow> 'g np_random \<Rightarrow> 'g \<Rightarrow> (nat \<Rightarrow> nat list) \<Rightarrow>
   error + ('a list list list \<times> 'a list list list \<times> int list \<times> int list \<times> rat list)" where
  "prepare_train_test_data fs as_long rnd g permutation =
     (case balanced_dataset fs as_long rnd g of
        Inl e \<Rightarrow> Inl e
      | Inr (X_balanced, y_balanced, g') \<Rightarrow>
          (case stratified_split permutation X_balanced y_balanced of
             Inl e \<Rightarrow> Inl e
           | Inr (X_train, X_test, y_train, y_test) \<Rightarrow>
               (case compute_class_weight (np_unique y_balanced) y_balanced of
                  Inl e \<Rightarrow> Inl e
                | Inr class_weights \<Rightarrow>
                    Inr (X_train, X_test, y_train, y_test, class_weights))))"

section \<open>Sample inputs\<close>

text \<open>
  Small directories on which the functions are run: \<open>directory_fs names files\<close> lists
  \<open>names\<close> under \<open>BASE_DATA_PATH\<close> and reads the files it is given there; every other
  path fails as a missing path does. \<open>missing_fs\<close> has no directory at all.
\<close>

definition directory_fs :: "string list \<Rightarrow> (string \<times> (error + 'a table)) list \<Rightarrow> 'a filesystem" where
  "directory_fs names files =
     \<lparr>listdir = (\<lambda>path. if path = BASE_DATA_PATH then Inr names else Inl OSError),
      read_csv = (\<lambda>path.
        case map_of (map (\<lambda>(name, content). (os_path_join BASE_DATA_PATH name, content)) files) path of
          Some content \<Rightarrow> content
        | None \<Rightarrow> Inl OSError)\<rparr>"


definition sample_a :: "int table" where
  "sample_a = \<lparr>width = 5, rows = [[0, 11, 12, 1, 99], [1, 21, 22, 2, 99]]\<rparr>"

definition sample_b :: "int table" where
  "sample_b = \<lparr>width = 5, rows = [[0, 31, 32, 3, 98]]\<rparr>"


definition sample_fs :: "int filesystem" where
  "sample_fs = directory_fs [''a.csv'', ''notes.txt'', ''b.csv'']
     [(''a.csv'', Inr sample_a), (''notes.txt'', Inl ParserError), (''b.csv'', Inr sample_b)]"




text \<open>
  A generator to run \<open>balance_classes\<close> with: its state counts the calls, a sample is
  the front of the population rotated by the state, a shuffle reverses the rotated list.
\<close>

definition sample_rng :: "nat np_random" where
  "sample_rng =
     \<lparr>choice = (\<lambda>g population size. (take size (rotate g population), Suc g)),
      shuffle = (\<lambda>g xs. (rev (rotate g xs), Suc g))\<rparr>"

definition sample_X :: "string list" where
  "sample_X = [''a'', ''b'', ''c'', ''d'', ''e'', ''f'']"

definition sample_y :: "int list" where
  "sample_y = [0, 1, 0, 0, 2, 2]"

section \<open>Properties of the class names\<close>

text \<open>
  Claim C8. \<open>get_class_name\<close> is total on the integers: it gives "Non-request" for 0,
  "Both hands" for 1, "Left hand" for 2, "Right hand" for 3, and "Unknown" for every
  other integer. The function has no failing branch: its result type is a plain string.
\<close>

theorem get_class_name_total:
  "get_class_name 0 = ''Non-request'' \<and> get_class_name 1 = ''Both hands'' \<and>
   get_class_name 2 = ''Left hand'' \<and> get_class_name 3 = ''Right hand'' \<and>
   (\<forall>v. v \<notin> {0, 1, 2, 3} \<longrightarrow> get_class_name v = ''Unknown'')"
  by (simp add: get_class_name_def class_names_def)

theorem get_class_name_total_witness:
  "get_class_name 0 = ''Non-request'' \<and> get_class_name 3 = ''Right hand'' \<and>
   (7::int) \<notin> {0, 1, 2, 3} \<and> get_class_name 7 = ''Unknown'' \<and>
   get_class_name (- 1) = ''Unknown''"
  using get_class_name_total by simp

section \<open>Properties of the sliding windows\<close>








section \<open>Properties of the loader\<close>

text \<open>The column slice \<open>1:-2\<close> and the column \<open>-2\<close> of a table, for every width.\<close>

lemma py_slice_features:
  "py_slice r 1 (- 2) = take (length r - 3) (drop 1 r)"
  by (cases "3 \<le> length r") (auto simp: py_slice_def Let_def min_def max_def nat_diff_distrib)

lemma py_index_label:
  "2 \<le> m \<Longrightarrow> py_index [0..<m] (- 2) = Inr (m - 2)"
  by (auto simp: py_index_def nat_diff_distrib of_nat_diff)

lemma py_index_label_none:
  "m < 2 \<Longrightarrow> py_index [0..<m] (- 2) = Inl IndexError"
  by (auto simp: py_index_def)

lemma iloc_column_label:
  "2 \<le> width data \<Longrightarrow>
   iloc_column data (- 2) = Inr (map (\<lambda>r. r ! (width data - 2)) (rows data))"
  by (simp add: iloc_column_def py_index_label)

lemma iloc_column_narrow:
  "width data < 2 \<Longrightarrow> iloc_column data (- 2) = Inl IndexError"
  by (simp add: iloc_column_def py_index_label_none)

lemma iloc_columns_width:
  "width (iloc_columns data 1 (- 2)) = width data - 3"
  by (simp add: iloc_columns_def py_slice_features)

lemma iloc_columns_rows:
  "rows (iloc_columns data 1 (- 2)) = map (\<lambda>r. take (length r - 3) (drop 1 r)) (rows data)"
  by (simp add: iloc_columns_def py_slice_features)

lemma load_loop_append:
  "load_loop fs (xs @ ys) F L =
     (case load_loop fs xs F L of Inl e \<Rightarrow> Inl e | Inr (F', L') \<Rightarrow> load_loop fs ys F' L')"
  by (induction xs arbitrary: F L) (auto split: sum.splits)

lemma load_loop_ok:
  "(\<And>n. n \<in> set names \<Longrightarrow> str_endswith n ''.csv'' \<Longrightarrow>
       read_csv fs (os_path_join BASE_DATA_PATH n) = Inr (dfs n) \<and> 2 \<le> width (dfs n)) \<Longrightarrow>
   load_loop fs names F L =
     Inr (F @ map (\<lambda>n. iloc_columns (dfs n) 1 (- 2)) (filter (\<lambda>n. str_endswith n ''.csv'') names),
          L @ map (\<lambda>n. map (\<lambda>r. r ! (width (dfs n) - 2)) (rows (dfs n)))
                (filter (\<lambda>n. str_endswith n ''.csv'') names))"
proof (induction names arbitrary: F L)
  case Nil
  then show ?case by simp
next
  case (Cons n names)
  have rest: "\<And>F L. load_loop fs names F L =
     Inr (F @ map (\<lambda>n. iloc_columns (dfs n) 1 (- 2)) (filter (\<lambda>n. str_endswith n ''.csv'') names),
          L @ map (\<lambda>n. map (\<lambda>r. r ! (width (dfs n) - 2)) (rows (dfs n)))
                (filter (\<lambda>n. str_endswith n ''.csv'') names))"
    using Cons.prems by (intro Cons.IH) auto
  show ?case
  proof (cases "str_endswith n ''.csv''")
    case True
    then have "read_csv fs (os_path_join BASE_DATA_PATH n) = Inr (dfs n)" "2 \<le> width (dfs n)"
      using Cons.prems by auto
    then show ?thesis using True by (simp add: rest iloc_column_label)
  next
    case False
    then show ?thesis by (simp add: rest)
  qed
qed

lemma load_loop_cong:
  "(\<And>n. n \<in> set names \<Longrightarrow> str_endswith n ''.csv'' \<Longrightarrow>
       read_csv fs' (os_path_join BASE_DATA_PATH n) = read_csv fs (os_path_join BASE_DATA_PATH n)) \<Longrightarrow>
   load_loop fs' names F L = load_loop fs names F L"
  by (induction names arbitrary: F L) (auto split: sum.splits)


lemma load_loop_no_label_column:
  assumes "\<And>p. p \<in> set pre \<Longrightarrow> str_endswith p ''.csv'' \<Longrightarrow>
       read_csv fs (os_path_join BASE_DATA_PATH p) = Inr (dfs p) \<and> 2 \<le> width (dfs p)"
    and "str_endswith n ''.csv''"
    and "read_csv fs (os_path_join BASE_DATA_PATH n) = Inr data" "width data < 2"
  shows "load_loop fs (pre @ n # post) F L = Inl IndexError"
  using assms(2,3,4)
  by (simp add: load_loop_append load_loop_ok [of pre fs dfs, OF assms(1)] iloc_column_narrow)

lemma np_vstack_same_width:
  "arrays \<noteq> [] \<Longrightarrow> (\<And>a. a \<in> set arrays \<Longrightarrow> width a = w) \<Longrightarrow>
   np_vstack arrays = Inr \<lparr>width = w, rows = concat (map rows arrays)\<rparr>"
  by (cases arrays) (auto simp: np_vstack_def list_all_iff)


lemma np_concatenate_nonempty:
  "arrays \<noteq> [] \<Longrightarrow> np_concatenate arrays = Inr (concat arrays)"
  by (cases arrays) (auto simp: np_concatenate_def)

lemma listdir_directory_fs: "listdir (directory_fs names files) BASE_DATA_PATH = Inr names"
  by (simp add: directory_fs_def)

lemma read_csv_directory_fs:
  "read_csv (directory_fs names files) (os_path_join BASE_DATA_PATH name) =
     (case map_of files name of Some content \<Rightarrow> content | None \<Rightarrow> Inl OSError)"
proof -
  have "map_of (map (\<lambda>(name, content). (os_path_join BASE_DATA_PATH name, content)) files)
          (os_path_join BASE_DATA_PATH name) = map_of files name"
    by (induction files) (auto simp: os_path_join_def)
  then show ?thesis by (simp add: directory_fs_def)
qed



text \<open>
  Claim C6. When the directory listing succeeds, every listed name that ends in ".csv"
  is read to a table with a label column, the feature widths agree and there is at least
  one such name, the loader returns the feature matrices of exactly these files stacked
  in listing order, and their label vectors concatenated in the same order. What a file
  system holds under any other path has no influence on the result.
\<close>

theorem load_data_from_files_stacks:
  assumes ls: "listdir fs BASE_DATA_PATH = Inr names"
    and rd: "\<And>n. n \<in> set names \<Longrightarrow> str_endswith n ''.csv'' \<Longrightarrow>
       read_csv fs (os_path_join BASE_DATA_PATH n) = Inr (dfs n) \<and> 2 \<le> width (dfs n) \<and>
       width (dfs n) - 3 = w"
    and some: "filter (\<lambda>n. str_endswith n ''.csv'') names \<noteq> []"
  shows "load_data_from_files fs =
     Inr (\<lparr>width = w,
           rows = concat (map (\<lambda>n. rows (iloc_columns (dfs n) 1 (- 2)))
                    (filter (\<lambda>n. str_endswith n ''.csv'') names))\<rparr>,
          concat (map (\<lambda>n. map (\<lambda>r. r ! (width (dfs n) - 2)) (rows (dfs n)))
                    (filter (\<lambda>n. str_endswith n ''.csv'') names))) \<and>
     (\<forall>fs'. listdir fs' BASE_DATA_PATH = Inr names \<and>
        (\<forall>n \<in> set names. str_endswith n ''.csv'' \<longrightarrow>
           read_csv fs' (os_path_join BASE_DATA_PATH n) =
           read_csv fs (os_path_join BASE_DATA_PATH n)) \<longrightarrow>
        load_data_from_files fs' = load_data_from_files fs)"
proof -
  define csvs where "csvs = filter (\<lambda>n. str_endswith n ''.csv'') names"
  define Fs where "Fs = map (\<lambda>n. iloc_columns (dfs n) 1 (- 2)) csvs"
  define Ls where "Ls = map (\<lambda>n. map (\<lambda>r. r ! (width (dfs n) - 2)) (rows (dfs n))) csvs"
  have loop: "load_loop fs names [] [] = Inr (Fs, Ls)"
    unfolding Fs_def Ls_def csvs_def
    using load_loop_ok [of names fs dfs "[]" "[]"] rd by simp
  have member: "n \<in> set names \<and> str_endswith n ''.csv''" if "n \<in> set csvs" for n
    using that by (simp add: csvs_def)
  have widths: "width a = w" if "a \<in> set Fs" for a
  proof -
    from that obtain n where n: "n \<in> set csvs" "a = iloc_columns (dfs n) 1 (- 2)"
      by (auto simp: Fs_def)
    from member [OF n(1)] rd have "width (dfs n) - 3 = w" by blast
    with n(2) show ?thesis by (simp add: iloc_columns_width)
  qed
  have "csvs \<noteq> []" using some by (simp add: csvs_def)
  then have ne: "Fs \<noteq> []" "Ls \<noteq> []" by (simp_all add: Fs_def Ls_def)
  have stack: "np_vstack Fs = Inr \<lparr>width = w, rows = concat (map rows Fs)\<rparr>"
    using ne(1) widths by (rule np_vstack_same_width)
  have cat: "np_concatenate Ls = Inr (concat Ls)"
    using ne(2) by (rule np_concatenate_nonempty)
  have rows_Fs: "map rows Fs = map (\<lambda>n. rows (iloc_columns (dfs n) 1 (- 2))) csvs"
    by (simp add: Fs_def)
  have res: "load_data_from_files fs =
     Inr (\<lparr>width = w, rows = concat (map (\<lambda>n. rows (iloc_columns (dfs n) 1 (- 2))) csvs)\<rparr>,
          concat Ls)"
    by (simp add: load_data_from_files_def ls loop stack cat rows_Fs)
  have same: "load_data_from_files fs' = load_data_from_files fs"
    if "listdir fs' BASE_DATA_PATH = Inr names \<and>
        (\<forall>n \<in> set names. str_endswith n ''.csv'' \<longrightarrow>
           read_csv fs' (os_path_join BASE_DATA_PATH n) =
           read_csv fs (os_path_join BASE_DATA_PATH n))" for fs'
  proof -
    have "load_loop fs' names [] [] = load_loop fs names [] []"
      by (rule load_loop_cong) (use that in blast)
    then show ?thesis using that by (simp add: load_data_from_files_def ls)
  qed
  show ?thesis
  proof (intro conjI allI impI)
    show "load_data_from_files fs =
     Inr (\<lparr>width = w,
           rows = concat (map (\<lambda>n. rows (iloc_columns (dfs n) 1 (- 2)))
                    (filter (\<lambda>n. str_endswith n ''.csv'') names))\<rparr>,
          concat (map (\<lambda>n. map (\<lambda>r. r ! (width (dfs n) - 2)) (rows (dfs n)))
                    (filter (\<lambda>n. str_endswith n ''.csv'') names)))"
      using res unfolding Ls_def csvs_def .
  next
    fix fs' :: "'a filesystem"
    assume "listdir fs' BASE_DATA_PATH = Inr names \<and>
        (\<forall>n \<in> set names. str_endswith n ''.csv'' \<longrightarrow>
           read_csv fs' (os_path_join BASE_DATA_PATH n) =
           read_csv fs (os_path_join BASE_DATA_PATH n))"
    then show "load_data_from_files fs' = load_data_from_files fs" by (rule same)
  qed
qed

theorem load_data_from_files_stacks_witness:
  "listdir sample_fs BASE_DATA_PATH = Inr [''a.csv'', ''notes.txt'', ''b.csv''] \<and>
   filter (\<lambda>n. str_endswith n ''.csv'') [''a.csv'', ''notes.txt'', ''b.csv''] = [''a.csv'', ''b.csv''] \<and>
   load_data_from_files sample_fs =
     Inr (\<lparr>width = 2, rows = [[11, 12], [21, 22], [31, 32]]\<rparr>, [1, 2, 3])"
proof -
  define dfs where "dfs = (\<lambda>n. if n = ''a.csv'' then sample_a else sample_b)"
  have ls: "listdir sample_fs BASE_DATA_PATH = Inr [''a.csv'', ''notes.txt'', ''b.csv'']"
    by (simp add: sample_fs_def listdir_directory_fs)
  have csvs: "filter (\<lambda>n. str_endswith n ''.csv'') [''a.csv'', ''notes.txt'', ''b.csv''] = [''a.csv'', ''b.csv'']"
    by code_simp
  have rd: "read_csv sample_fs (os_path_join BASE_DATA_PATH n) = Inr (dfs n) \<and> 2 \<le> width (dfs n) \<and>
       width (dfs n) - 3 = 2"
    if "n \<in> set [''a.csv'', ''notes.txt'', ''b.csv'']" "str_endswith n ''.csv''" for n
    using that
    by (auto simp: sample_fs_def read_csv_directory_fs dfs_def sample_a_def sample_b_def
        str_endswith_def)
  have some: "filter (\<lambda>n. str_endswith n ''.csv'') [''a.csv'', ''notes.txt'', ''b.csv''] \<noteq> []"
    unfolding csvs by simp
  have "load_data_from_files sample_fs =
     Inr (\<lparr>width = 2,
           rows = concat (map (\<lambda>n. rows (iloc_columns (dfs n) 1 (- 2)))
                    (filter (\<lambda>n. str_endswith n ''.csv'') [''a.csv'', ''notes.txt'', ''b.csv'']))\<rparr>,
          concat (map (\<lambda>n. map (\<lambda>r. r ! (width (dfs n) - 2)) (rows (dfs n)))
                    (filter (\<lambda>n. str_endswith n ''.csv'') [''a.csv'', ''notes.txt'', ''b.csv''])))"
    using load_data_from_files_stacks [OF ls rd some] by blast
  then have "load_data_from_files sample_fs =
     Inr (\<lparr>width = 2, rows = [[11, 12], [21, 22], [31, 32]]\<rparr>, [1, 2, 3])"
    unfolding csvs
    by (simp add: dfs_def iloc_columns_rows sample_a_def sample_b_def)
  with ls csvs show ?thesis by blast
qed



section \<open>Properties of the balancing\<close>

text \<open>
  The positions \<open>np.where\<close> gives for a class are distinct and as many as the class
  has samples; the loop keeps, for each class in turn, a selection that \<open>kept\<close>
  describes, whatever the generator does within \<open>sampler\<close>.
\<close>

lemma length_np_where_eq: "length (np_where_eq y cls) = class_count y cls"
proof -
  have "filter (\<lambda>v. v = cls) y = filter (\<lambda>v. v = cls) (map (\<lambda>i. y ! i) [0..<length y])"
    by (simp add: map_nth)
  also have "length \<dots> = length (filter (\<lambda>i. y ! i = cls) [0..<length y])"
    by (simp add: filter_map comp_def)
  finally show ?thesis by (simp add: np_where_eq_def class_count_def)
qed

lemma distinct_np_where_eq: "distinct (np_where_eq y cls)"
  by (simp add: np_where_eq_def)

lemma set_np_where_eq: "set (np_where_eq y cls) = {i. i < length y \<and> y ! i = cls}"
  by (auto simp: np_where_eq_def)

lemma np_unique_props: "distinct (np_unique y)" "set (np_unique y) = set y"
  "length (np_unique y) = card (set y)"
  by (simp_all add: np_unique_def length_remdups_card_conv)

lemma undersample_loop_result:
  "sampler rnd \<Longrightarrow> undersample_loop rnd y t classes acc g = Inr (res, g') \<Longrightarrow>
   \<exists>sels. res = acc @ concat sels \<and> list_all2 (kept y t) sels classes"
proof (induction classes arbitrary: acc g)
  case Nil
  then show ?case by simp
next
  case (Cons cls rest)
  show ?case
  proof (cases "int (length (np_where_eq y cls)) > t")
    case True
    with Cons.prems(2) have t: "0 \<le> t" by (auto simp: Let_def split: if_splits)
    obtain sel g1 where ch: "choice rnd g (np_where_eq y cls) (nat t) = (sel, g1)"
      by (cases "choice rnd g (np_where_eq y cls) (nat t)")
    from True t have le: "nat t \<le> length (np_where_eq y cls)" by linarith
    with Cons.prems(1) have
      "length (fst (choice rnd g (np_where_eq y cls) (nat t))) = nat t"
      "mset (fst (choice rnd g (np_where_eq y cls) (nat t))) \<subseteq># mset (np_where_eq y cls)"
      unfolding sampler_def by blast+
    with ch le have k: "kept y t sel cls"
      by (simp add: kept_def length_np_where_eq)
    from Cons.prems(2) True t ch
    have "undersample_loop rnd y t rest (acc @ sel) g1 = Inr (res, g')"
      by (simp add: Let_def)
    from Cons.IH [OF Cons.prems(1) this] obtain sels where
      "res = (acc @ sel) @ concat sels" "list_all2 (kept y t) sels rest" by blast
    with k have "res = acc @ concat (sel # sels) \<and> list_all2 (kept y t) (sel # sels) (cls # rest)"
      by simp
    then show ?thesis by blast
  next
    case False
    then have k: "kept y t (np_where_eq y cls) cls"
      by (auto simp: kept_def length_np_where_eq min_def)
    from Cons.prems(2) False
    have "undersample_loop rnd y t rest (acc @ np_where_eq y cls) g = Inr (res, g')"
      by (simp add: Let_def)
    from Cons.IH [OF Cons.prems(1) this] obtain sels where
      "res = (acc @ np_where_eq y cls) @ concat sels" "list_all2 (kept y t) sels rest" by blast
    with k have "res = acc @ concat (np_where_eq y cls # sels) \<and>
        list_all2 (kept y t) (np_where_eq y cls # sels) (cls # rest)"
      by simp
    then show ?thesis by blast
  qed
qed

lemma undersample_loop_returns:
  "0 \<le> t \<Longrightarrow> \<exists>res g'. undersample_loop rnd y t classes acc g = Inr (res, g')"
  by (induction classes arbitrary: acc g) (auto simp: Let_def split: prod.splits)

lemma kept_label: "kept y t sel cls \<Longrightarrow> i \<in> set sel \<Longrightarrow> i < length y \<and> y ! i = cls"
proof -
  assume "kept y t sel cls" "i \<in> set sel"
  then have "i \<in> set (np_where_eq y cls)"
    unfolding kept_def by (metis set_mset_mono set_mset_mset subsetD)
  then show ?thesis by (simp add: set_np_where_eq)
qed

lemma kept_distinct: "kept y t sel cls \<Longrightarrow> distinct sel"
proof -
  assume "kept y t sel cls"
  then have "mset sel \<subseteq># mset (np_where_eq y cls)" by (simp add: kept_def)
  then have "count (mset sel) x \<le> count (mset (np_where_eq y cls)) x" for x
    by (rule mset_subset_eq_count)
  moreover have "count (mset (np_where_eq y cls)) x \<le> 1" for x
    using distinct_np_where_eq [of y cls] by (simp add: distinct_count_atmost_1)
  ultimately have le: "count (mset sel) x \<le> 1" for x by (meson order_trans)
  have "count (mset sel) a = (if a \<in> set sel then 1 else 0)" for a
  proof (cases "a \<in> set sel")
    case True
    then have "0 < count (mset sel) a" by simp
    with le [of a] have "count (mset sel) a = 1" by linarith
    with True show ?thesis by simp
  next
    case False
    then show ?thesis by simp
  qed
  then show ?thesis unfolding distinct_count_atmost_1 by blast
qed

lemma kept_all_distinct:
  "list_all2 (kept y t) sels classes \<Longrightarrow> distinct classes \<Longrightarrow>
   distinct (concat sels) \<and> (\<forall>i \<in> set (concat sels). i < length y \<and> y ! i \<in> set classes)"
proof (induction rule: list_all2_induct)
  case Nil
  then show ?case by simp
next
  case (Cons sel sels cls classes)
  then have rest: "distinct (concat sels)"
    "\<forall>i \<in> set (concat sels). i < length y \<and> y ! i \<in> set classes" by auto
  have here: "\<forall>i \<in> set sel. i < length y \<and> y ! i = cls"
    using Cons.hyps(1) kept_label by blast
  have "set sel \<inter> set (concat sels) = {}"
    using here rest(2) Cons.prems by fastforce
  with rest here kept_distinct [OF Cons.hyps(1)] show ?case by auto
qed

lemma kept_all_count:
  "list_all2 (kept y t) sels classes \<Longrightarrow> distinct classes \<Longrightarrow>
   length (filter (\<lambda>i. y ! i = c) (concat sels)) =
     (if c \<in> set classes then min (class_count y c) (nat t) else 0)"
proof (induction rule: list_all2_induct)
  case Nil
  then show ?case by simp
next
  case (Cons sel sels cls classes)
  have here: "\<forall>i \<in> set sel. y ! i = cls"
    using Cons.hyps(1) kept_label by blast
  have sel: "filter (\<lambda>i. y ! i = c) sel = (if c = cls then sel else [])"
    using here by (auto simp: filter_empty_conv intro: filter_True)
  have "length sel = min (class_count y cls) (nat t)"
    using Cons.hyps(1) by (simp add: kept_def)
  with sel Cons show ?case by auto
qed

text \<open>
  The default target is the second largest class count when there are two classes or
  more, and an \<open>IndexError\<close> with fewer. With a target that is not negative the function
  returns, and what it returns is the input read at a list of distinct positions.
\<close>

lemma fancy_index_Inr:
  "fancy_index a idx = Inr b \<longleftrightarrow> (\<forall>i \<in> set idx. i < length a) \<and> b = map (\<lambda>i. a ! i) idx"
  by (auto simp: fancy_index_def list_all_iff)

lemma sort_map_int: "sort (map int xs) = map int (sort xs)"
proof (rule properties_for_sort)
  show "mset (map int (sort xs)) = mset (map int xs)" by simp
  show "sorted (map int (sort xs))"
    by (simp add: sorted_map)
qed

lemma default_target_two:
  assumes "2 \<le> card (set y)"
  shows "default_target_size y =
     Inr (int (second_largest (map (class_count y) (np_unique y))))"
proof -
  define counts where "counts = map (class_count y) (np_unique y)"
  have len: "length counts = card (set y)" by (simp add: counts_def np_unique_props)
  have m: "map (\<lambda>cls. int (class_count y cls)) (np_unique y) = map int counts"
    by (simp add: counts_def)
  have n: "nat (int (length counts) + - 2) = length counts - 2"
    "nat (int (length counts) - 2) = length counts - 2" by simp_all
  have "default_target_size y = py_index (map int (sort counts)) (- 2)"
    unfolding default_target_size_def m sort_map_int ..
  also have "\<dots> = Inr (map int (sort counts) ! (length counts - 2))"
    using assms len n by (simp add: py_index_def)
  also have "map int (sort counts) ! (length counts - 2) = int (sort counts ! (length counts - 2))"
    using assms len by simp
  also have "sort counts ! (length counts - 2) = rev (sort counts) ! 1"
    using assms len by (simp add: rev_nth numeral_2_eq_2)
  finally show ?thesis
    unfolding second_largest_def counts_def .
qed

lemma default_target_few:
  assumes "card (set y) < 2"
  shows "default_target_size y = Inl IndexError"
proof -
  have "length (sort (map (\<lambda>cls. int (class_count y cls)) (np_unique y))) < 2"
    using assms by (simp add: np_unique_props)
  then show ?thesis by (simp add: default_target_size_def py_index_def)
qed

lemma balance_classes_target:
  assumes "sampler rnd"
    and tgt: "(case target_size of None \<Rightarrow> default_target_size y | Some t \<Rightarrow> Inr t) = Inr t"
    and res: "balance_classes rnd g X y target_size = Inr (Xb, yb, g')"
  shows "\<exists>idx. distinct idx \<and> (\<forall>i \<in> set idx. i < length y \<and> i < length X) \<and>
     Xb = map (\<lambda>i. X ! i) idx \<and> yb = map (\<lambda>i. y ! i) idx \<and>
     (\<forall>c. length (filter (\<lambda>i. y ! i = c) idx) =
        (if c \<in> set y then min (class_count y c) (nat t) else 0))"
proof -
  from res tgt obtain bal g1 where
    loop: "undersample_loop rnd y t (np_unique y) [] g = Inr (bal, g1)"
    by (auto simp: balance_classes_def split: sum.splits)
  obtain sh g2 where sh: "shuffle rnd g1 bal = (sh, g2)" by (cases "shuffle rnd g1 bal")
  from res tgt loop sh have fx: "fancy_index X sh = Inr Xb" and fy: "fancy_index y sh = Inr yb"
    by (auto simp: balance_classes_def split: sum.splits)
  from undersample_loop_result [OF assms(1) loop] obtain sels where
    bal: "bal = concat sels" and k: "list_all2 (kept y t) sels (np_unique y)" by auto
  have d: "distinct bal" "\<forall>i \<in> set bal. i < length y"
    using kept_all_distinct [OF k] bal by (auto simp: np_unique_props)
  have c: "length (filter (\<lambda>i. y ! i = c) bal) =
      (if c \<in> set y then min (class_count y c) (nat t) else 0)" for c
    using kept_all_count [OF k, of c] bal by (simp add: np_unique_props)
  have perm: "mset sh = mset bal"
    using assms(1) sh unfolding sampler_def by (metis fst_conv)
  have "distinct sh" using perm d(1) by (metis mset_eq_imp_distinct_iff)
  moreover have "set sh = set bal" using perm by (rule mset_eq_setD)
  moreover have "length (filter P sh) = length (filter P bal)" for P
    using perm by (metis mset_filter size_mset)
  ultimately show ?thesis
    using d(2) c fx fy unfolding fancy_index_Inr by (intro exI [of _ sh]) auto
qed

lemma balance_classes_returns:
  assumes "sampler rnd" and "length y \<le> length X" and "0 \<le> t"
    and tgt: "(case target_size of None \<Rightarrow> default_target_size y | Some t \<Rightarrow> Inr t) = Inr t"
  shows "\<exists>Xb yb g'. balance_classes rnd g X y target_size = Inr (Xb, yb, g')"
proof -
  from undersample_loop_returns [OF assms(3), of rnd y "np_unique y" "[]" g] obtain bal g1 where
    loop: "undersample_loop rnd y t (np_unique y) [] g = Inr (bal, g1)" by blast
  obtain sh g2 where sh: "shuffle rnd g1 bal = (sh, g2)" by (cases "shuffle rnd g1 bal")
  from undersample_loop_result [OF assms(1) loop] obtain sels where
    bal: "bal = concat sels" and k: "list_all2 (kept y t) sels (np_unique y)" by auto
  have d: "\<forall>i \<in> set bal. i < length y"
    using kept_all_distinct [OF k] bal by (auto simp: np_unique_props)
  have "mset sh = mset bal"
    using assms(1) sh unfolding sampler_def by (metis fst_conv)
  then have "set sh = set bal" by (rule mset_eq_setD)
  with d assms(2) have "list_all (\<lambda>i. i < length y) sh" "list_all (\<lambda>i. i < length X) sh"
    by (auto simp: list_all_iff)
  then show ?thesis
    using tgt loop sh by (simp add: balance_classes_def fancy_index_def)
qed

lemma class_count_map: "class_count (map (\<lambda>i. y ! i) idx) c = length (filter (\<lambda>i. y ! i = c) idx)"
  by (simp add: class_count_def filter_map comp_def)

text \<open>The sample generator is a sampler, and the sample labels have three classes
  with counts 3, 1 and 2.\<close>

lemma mset_take_sub: "mset (take n xs) \<subseteq># mset xs"
  by (metis append_take_drop_id mset_append mset_subset_eq_add_left)

lemma mset_rotate_same: "mset (rotate n xs) = mset xs"
proof -
  have "mset (rotate n xs) = mset (drop (n mod length xs) xs) + mset (take (n mod length xs) xs)"
    by (simp add: rotate_drop_take)
  then show ?thesis
    by (metis add.commute append_take_drop_id mset_append)
qed

lemma sampler_sample_rng: "sampler sample_rng"
proof -
  have "mset (take n (rotate g xs)) \<subseteq># mset xs" for n g and xs :: "nat list"
    using mset_take_sub [of n "rotate g xs"] by (simp only: mset_rotate_same)
  then show ?thesis by (simp add: sampler_def sample_rng_def mset_rotate_same)
qed

lemma sample_y_classes: "card (set sample_y) = 3"
  by (simp add: sample_y_def card_insert_if)

lemma sample_y_second: "second_largest (map (class_count sample_y) (np_unique sample_y)) = 2"
  by code_simp

lemma sample_balanced:
  "balance_classes sample_rng 0 sample_X sample_y None =
     Inr ([''a'', ''f'', ''e'', ''b'', ''c''], [0, 2, 2, 1, 0], 2)"
  by code_simp

text \<open>
  Claim C3. For a generator that samples without replacement and permutes, labels with
  at least two classes and no more labels than samples, and a target that is not
  negative when it is given, \<open>balance_classes\<close> returns, and every class \<open>c\<close> of the input
  has \<open>min (count of c) target\<close> samples in the output, where the target is the argument
  or, by default, the second largest class count. No class gains samples.
\<close>

theorem balance_classes_counts:
  assumes "sampler rnd" and "length y \<le> length X" and "2 \<le> card (set y)"
    and "case target_size of None \<Rightarrow> True | Some t \<Rightarrow> 0 \<le> t"
  shows "\<exists>X_balanced y_balanced g'.
      balance_classes rnd g X y target_size = Inr (X_balanced, y_balanced, g') \<and>
      length X_balanced = length y_balanced \<and>
      (\<forall>c \<in> set y. class_count y_balanced c =
          min (class_count y c)
            (case target_size of
               None \<Rightarrow> second_largest (map (class_count y) (np_unique y))
             | Some t \<Rightarrow> nat t)) \<and>
      (\<forall>c. class_count y_balanced c \<le> class_count y c)"
proof -
  define t where "t = (case target_size of
      None \<Rightarrow> int (second_largest (map (class_count y) (np_unique y))) | Some t \<Rightarrow> t)"
  have tgt: "(case target_size of None \<Rightarrow> default_target_size y | Some t \<Rightarrow> Inr t) = Inr t"
    using assms(3) by (simp add: t_def default_target_two split: option.splits)
  have t0: "0 \<le> t" using assms(4) by (simp add: t_def split: option.splits)
  have nat_t: "nat t = (case target_size of
               None \<Rightarrow> second_largest (map (class_count y) (np_unique y))
             | Some t \<Rightarrow> nat t)"
    by (simp add: t_def split: option.splits)
  from balance_classes_returns [OF assms(1,2) t0 tgt] obtain Xb yb g' where
    res: "balance_classes rnd g X y target_size = Inr (Xb, yb, g')" by blast
  from balance_classes_target [OF assms(1) tgt res] obtain idx where
    Xb: "Xb = map (\<lambda>i. X ! i) idx" and yb: "yb = map (\<lambda>i. y ! i) idx"
    and cnt: "\<And>c. length (filter (\<lambda>i. y ! i = c) idx) =
        (if c \<in> set y then min (class_count y c) (nat t) else 0)"
    by blast
  have "class_count yb c = min (class_count y c) (nat t)" if "c \<in> set y" for c
    using cnt [of c] that by (simp add: yb class_count_map)
  moreover have "class_count yb c \<le> class_count y c" for c
    using cnt [of c] by (simp add: yb class_count_map)
  moreover have "length Xb = length yb" by (simp add: Xb yb)
  ultimately show ?thesis using res unfolding nat_t by blast
qed

theorem balance_classes_counts_witness:
  "sampler sample_rng \<and> length sample_y \<le> length sample_X \<and> 2 \<le> card (set sample_y) \<and>
   (\<exists>X_balanced y_balanced g'.
      balance_classes sample_rng 0 sample_X sample_y None = Inr (X_balanced, y_balanced, g') \<and>
      length X_balanced = length y_balanced \<and>
      class_count sample_y 0 = 3 \<and> class_count y_balanced 0 = 2 \<and>
      class_count sample_y 1 = 1 \<and> class_count y_balanced 1 = 1 \<and>
      class_count sample_y 2 = 2 \<and> class_count y_balanced 2 = 2) \<and>
   (\<exists>X_balanced y_balanced g'.
      balance_classes sample_rng 0 sample_X sample_y (Some 1) = Inr (X_balanced, y_balanced, g') \<and>
      class_count y_balanced 0 = 1 \<and> class_count y_balanced 1 = 1 \<and>
      class_count y_balanced 2 = 1)"
proof -
  have sizes: "length sample_y \<le> length sample_X"
    by (simp add: sample_y_def sample_X_def)
  have two: "2 \<le> card (set sample_y)"
    by (simp add: sample_y_classes)
  have members: "0 \<in> set sample_y" "1 \<in> set sample_y" "2 \<in> set sample_y"
    by (simp_all add: sample_y_def)
  have before: "class_count sample_y 0 = 3" "class_count sample_y 1 = 1"
      "class_count sample_y 2 = 2"
    by (simp_all add: sample_y_def class_count_def)
  from balance_classes_counts [of sample_rng sample_y sample_X None 0,
      OF sampler_sample_rng sizes two]
  have first: "\<exists>X_balanced y_balanced g'.
      balance_classes sample_rng 0 sample_X sample_y None = Inr (X_balanced, y_balanced, g') \<and>
      length X_balanced = length y_balanced \<and>
      class_count sample_y 0 = 3 \<and> class_count y_balanced 0 = 2 \<and>
      class_count sample_y 1 = 1 \<and> class_count y_balanced 1 = 1 \<and>
      class_count sample_y 2 = 2 \<and> class_count y_balanced 2 = 2"
    using members before by (auto simp: sample_y_second)
  from balance_classes_counts [of sample_rng sample_y sample_X "Some 1" 0,
      OF sampler_sample_rng sizes two]
  have second: "\<exists>X_balanced y_balanced g'.
      balance_classes sample_rng 0 sample_X sample_y (Some 1) = Inr (X_balanced, y_balanced, g') \<and>
      class_count y_balanced 0 = 1 \<and> class_count y_balanced 1 = 1 \<and>
      class_count y_balanced 2 = 1"
    using members before by auto
  from sampler_sample_rng sizes two first second show ?thesis by blast
qed

text \<open>
  Claim C9. What \<open>balance_classes\<close> returns is the input read at a list of distinct
  positions: every output pair is an input pair \<open>(X[i], y[i])\<close>, no input position is
  used twice, and nothing new is made.
\<close>

theorem balance_classes_selects:
  assumes "sampler rnd"
    and "balance_classes rnd g X y target_size = Inr (X_balanced, y_balanced, g')"
  shows "\<exists>idx. distinct idx \<and> length idx = length X_balanced \<and>
     length y_balanced = length X_balanced \<and>
     (\<forall>j < length idx. idx ! j < length X \<and> idx ! j < length y \<and>
        X_balanced ! j = X ! (idx ! j) \<and> y_balanced ! j = y ! (idx ! j))"
proof -
  from assms(2) obtain t where
    tgt: "(case target_size of None \<Rightarrow> default_target_size y | Some t \<Rightarrow> Inr t) = Inr t"
    by (auto simp: balance_classes_def split: sum.splits)
  from balance_classes_target [OF assms(1) tgt assms(2)] obtain idx where
    "distinct idx" "\<forall>i \<in> set idx. i < length y \<and> i < length X"
    "X_balanced = map (\<lambda>i. X ! i) idx" "y_balanced = map (\<lambda>i. y ! i) idx"
    by blast
  then show ?thesis by (intro exI [of _ idx]) auto
qed

theorem balance_classes_selects_witness:
  "sampler sample_rng \<and>
   balance_classes sample_rng 0 sample_X sample_y None =
     Inr ([''a'', ''f'', ''e'', ''b'', ''c''], [0, 2, 2, 1, 0], 2) \<and>
   (\<exists>idx. distinct idx \<and> length idx = 5 \<and>
      (\<forall>j < 5. idx ! j < length sample_X \<and> idx ! j < length sample_y \<and>
         [''a'', ''f'', ''e'', ''b'', ''c''] ! j = sample_X ! (idx ! j) \<and>
         [0, 2, 2, 1, 0] ! j = sample_y ! (idx ! j)))"
proof -
  from balance_classes_selects [OF sampler_sample_rng sample_balanced]
  obtain idx where idx: "distinct idx" "length idx = 5"
      "\<forall>j < length idx. idx ! j < length sample_X \<and> idx ! j < length sample_y \<and>
         [''a'', ''f'', ''e'', ''b'', ''c''] ! j = sample_X ! (idx ! j) \<and>
         [0, 2, 2, 1, 0] ! j = sample_y ! (idx ! j)"
    by auto
  from idx(3) have "\<forall>j < 5. idx ! j < length sample_X \<and> idx ! j < length sample_y \<and>
         [''a'', ''f'', ''e'', ''b'', ''c''] ! j = sample_X ! (idx ! j) \<and>
         [0, 2, 2, 1, 0] ! j = sample_y ! (idx ! j)"
    unfolding idx(2) .
  with idx(1,2) sampler_sample_rng sample_balanced show ?thesis by blast
qed

text \<open>
  Claim C10. With fewer than two distinct labels the default target does not exist:
  \<open>np.sort(class_counts)[-2]\<close> raises \<open>IndexError\<close> and so does \<open>balance_classes\<close> called
  without a target. With two or more it is the second largest class count.
\<close>

theorem default_target_needs_two_classes:
  "(card (set y) < 2 \<longrightarrow>
      default_target_size y = Inl IndexError \<and>
      balance_classes rnd g X y None = Inl IndexError) \<and>
   (2 \<le> card (set y) \<longrightarrow>
      default_target_size y = Inr (int (second_largest (map (class_count y) (np_unique y)))))"
  by (simp add: default_target_two default_target_few balance_classes_def)

theorem default_target_needs_two_classes_witness:
  "card (set [1, 1, 1 :: int]) < 2 \<and>
   default_target_size [1, 1, 1] = Inl IndexError \<and>
   balance_classes sample_rng 0 [''a'', ''b'', ''c''] [1, 1, 1] None = Inl IndexError \<and>
   2 \<le> card (set sample_y) \<and>
   default_target_size sample_y = Inr 2"
proof -
  have one: "card (set [1, 1, 1 :: int]) < 2"
    by simp
  have two: "2 \<le> card (set sample_y)"
    by (simp add: sample_y_classes)
  from default_target_needs_two_classes [of "[1, 1, 1]" sample_rng 0 "[''a'', ''b'', ''c'']"] one
  have few: "default_target_size [1, 1, 1] = Inl IndexError \<and>
      balance_classes sample_rng 0 [''a'', ''b'', ''c''] [1, 1, 1] None = Inl IndexError"
    by blast
  from default_target_needs_two_classes [of sample_y sample_rng 0 sample_X] two
  have "default_target_size sample_y = Inr 2"
    by (simp add: sample_y_second)
  with one two few show ?thesis by blast
qed

end
